theory Spec2Isabelle
  imports Main "HOL-Library.Sublist"
begin

section \<open>JavaScript values used by the binding code\<close>

text \<open>
  \<open>Element.getStaticAttributeValue\<close> yields \<open>null\<close> (attribute absent or not static),
  \<open>true\<close> (attribute without a value, compared with \<open>=== true\<close> for \<open>multiple\<close>) or the
  attribute's text.
\<close>

datatype js_value = JNull | JTrue | JStr string

text \<open>String coercion, as \<open>RegExp.prototype.test\<close> applies it to its argument.\<close>

fun js_string :: "js_value \<Rightarrow> string" where
  "js_string JNull = ''null''"
| "js_string JTrue = ''true''"
| "js_string (JStr s) = s"

text \<open>An unanchored search for a literal alternative: does \<open>p\<close> occur somewhere in \<open>s\<close>?\<close>

fun occurs_in :: "string \<Rightarrow> string \<Rightarrow> bool" where
  "occurs_in p [] = (p = [])"
| "occurs_in p (c # cs) = (prefix p (c # cs) \<or> occurs_in p cs)"

text \<open>Decimal rendering of a number inside a template literal.\<close>

fun string_of_nat :: "nat \<Rightarrow> string" where
  "string_of_nat n =
     (if n < 10 then [''0123456789'' ! n]
      else string_of_nat (n div 10) @ [''0123456789'' ! (n mod 10)])"

declare string_of_nat.simps [simp del]

definition js_number_string :: "int \<Rightarrow> string" where
  "js_number_string i =
     (if i < 0 then ''-'' @ string_of_nat (nat (- i)) else string_of_nat (nat i))"

text \<open>\<open>Array.prototype.indexOf\<close>: the first position of \<open>k\<close>, or \<open>-1\<close>.\<close>

fun indexOf :: "'a list \<Rightarrow> 'a \<Rightarrow> int" where
  "indexOf [] k = - 1"
| "indexOf (x # xs) k =
     (if x = k then 0 else (let i = indexOf xs k in if i = - 1 then - 1 else i + 1))"

text \<open>\<open>Array.prototype.join\<close> with a separator.\<close>

fun join :: "string \<Rightarrow> string list \<Rightarrow> string" where
  "join sep [] = []"
| "join sep [p] = p"
| "join sep (p # q # ps) = p @ sep @ join sep (q # ps)"

text \<open>
  A JavaScript \<open>Set\<close> of strings keeps insertion order; it is a list without repetition,
  \<open>add\<close> appends a new member only, and \<open>new Set(xs)\<close> adds the members of \<open>xs\<close> in turn.
\<close>

definition set_add :: "string list \<Rightarrow> string \<Rightarrow> string list" where
  "set_add s x = (if x \<in> set s then s else s @ [x])"

definition new_Set :: "string list \<Rightarrow> string list" where
  "new_Set xs = foldl set_add [] xs"

datatype error = TypeError

section \<open>Data model\<close>

text \<open>The target expression's syntax tree: an identifier or a member expression
  (object, property, computed flag).\<close>

datatype ast_node = Identifier string | MemberExpression ast_node ast_node bool

fun isMemberExpression :: "ast_node \<Rightarrow> bool" where
  "isMemberExpression (MemberExpression obj prp computed) = True"
| "isMemberExpression (Identifier n) = False"

record expression =
  node :: ast_node
  snippet :: string
  dependencies :: "string list"

text \<open>
  The host element. Its class is outside this file: the tag name, the variable that holds
  the element in the generated code, the static attribute lookup and the media-node test
  are taken as given.
\<close>

record element =
  el_name :: string
  el_var :: string
  getStaticAttributeValue :: "string \<Rightarrow> js_value"
  isMediaNode :: bool

text \<open>
  A binding directive after construction (the constructor's string slicing of the source
  text is not needed below; its results are fields).
\<close>

record binding =
  name :: string
  value_expr :: expression
  isContextual :: bool
  usesContext :: bool
  binding_obj :: string
  binding_prop :: string
  parent :: element

record computation =
  key :: string

record compiler =
  bindingGroups :: "string list"
  indirectDependencies :: "string \<rightharpoonup> string list"
  computations :: "computation list"

record block =
  builders_hydrate :: "string list"
  builders_destroy :: "string list"
  variables :: "string \<rightharpoonup> string"
  bindings :: "string \<rightharpoonup> string"

text \<open>
  Helpers imported from other modules are parameters of the model: the pattern
  \<open>dimensions\<close> of \<open>utils/patterns\<close> (its \<open>test\<close>), the name of \<open>getObject(node)\<close>,
  \<open>getTailSnippet\<close>, the \<open>parts\<close> of \<open>flattenReference\<close> (\<open>None\<close> when the helper returns
  nothing to destructure) and the block's \<open>getUniqueName\<close>.
\<close>

record utils =
  dimensions_test :: "string \<Rightarrow> bool"
  getObject :: "ast_node \<Rightarrow> string"
  getTailSnippet :: "ast_node \<Rightarrow> string"
  flattenReference :: "ast_node \<Rightarrow> string list option"
  getUniqueName :: "block \<Rightarrow> string \<Rightarrow> string \<times> block"

record handler =
  handler_usesContext :: bool
  usesState :: bool
  usesStore :: bool
  mutation :: "string option"
  props :: "string list"
  storeProps :: "string list"

record synthesis =
  res_name :: string
  res_object :: string
  res_handler :: handler
  updateDom :: "string option"
  initialUpdate :: "string option"
  needsLock :: bool
  updateCondition :: "string option"
  res_isReadOnlyMediaAttribute :: bool

section \<open>The block's statement lists\<close>

text \<open>
  Modelled from the spec: the class \<open>Block\<close> and its code builders are not part of the
  sources. The spec gives the block "ordered append points for hydrate (construction-time)
  and destroy (teardown-time) statement lists" and "variable declaration"; \<open>addLine\<close>
  appends one statement at the end of a list, \<open>addVariable\<close> records a variable with its
  initial value.
\<close>

definition hydrate_addLine :: "block \<Rightarrow> string \<Rightarrow> block" where
  "hydrate_addLine blk line = blk\<lparr>builders_hydrate := builders_hydrate blk @ [line]\<rparr>"

definition destroy_addLine :: "block \<Rightarrow> string \<Rightarrow> block" where
  "destroy_addLine blk line = blk\<lparr>builders_destroy := builders_destroy blk @ [line]\<rparr>"

definition addVariable :: "block \<Rightarrow> string \<Rightarrow> string \<Rightarrow> block" where
  "addVariable blk v init = blk\<lparr>variables := (variables blk)(v \<mapsto> init)\<rparr>"

section \<open>Binding.ts\<close>

definition readOnlyMediaAttributes :: "string set" where
  "readOnlyMediaAttributes = {''duration'', ''buffered'', ''seekable'', ''played''}"

definition isReadOnlyMediaAttribute :: "binding \<Rightarrow> bool" where
  "isReadOnlyMediaAttribute b = (name b \<in> readOnlyMediaAttributes)"

text \<open>The test \<open>/radio|checkbox|range|color/.test(v)\<close> of \<open>munge\<close>.\<close>

definition lock_exempt_test :: "js_value \<Rightarrow> bool" where
  "lock_exempt_test v =
     (occurs_in ''radio'' (js_string v) \<or> occurs_in ''checkbox'' (js_string v)
      \<or> occurs_in ''range'' (js_string v) \<or> occurs_in ''color'' (js_string v))"

text \<open>The two flags \<open>munge\<close> computes first (\<open>needsLock\<close> and \<open>isReadOnly\<close>).\<close>

definition munge_needsLock :: "element \<Rightarrow> bool" where
  "munge_needsLock nd =
     (el_name nd \<noteq> ''input'' \<or> \<not> lock_exempt_test (getStaticAttributeValue nd ''type''))"

definition munge_isReadOnly :: "utils \<Rightarrow> binding \<Rightarrow> bool" where
  "munge_isReadOnly u b =
     ((isMediaNode (parent b) \<and> name b \<in> readOnlyMediaAttributes)
      \<or> dimensions_test u (name b))"

text \<open>The dependency set of \<open>munge\<close>: the expression's dependencies, then for each of them
  the indirect dependencies registered under its name.\<close>

definition munge_dependencies :: "compiler \<Rightarrow> binding \<Rightarrow> string list" where
  "munge_dependencies c b =
     foldl (\<lambda>deps prp.
              (case indirectDependencies c prp of
                 None \<Rightarrow> deps
               | Some ids \<Rightarrow> foldl set_add deps ids))
           (new_Set (dependencies (value_expr b)))
           (dependencies (value_expr b))"

definition getDomUpdater :: "element \<Rightarrow> binding \<Rightarrow> string \<Rightarrow> string option" where
  "getDomUpdater nd b snip =
     (if isReadOnlyMediaAttribute b then None
      else if el_name nd = ''select'' then
        (if getStaticAttributeValue nd ''multiple'' = JTrue
         then Some (''@selectOptions('' @ el_var nd @ '', '' @ snip @ '')'')
         else Some (''@selectOption('' @ el_var nd @ '', '' @ snip @ '')''))
      else if name b = ''group'' then
        (let type = getStaticAttributeValue nd ''type'';
             condition =
               (if type = JStr ''checkbox''
                then ''~'' @ snip @ ''.indexOf('' @ el_var nd @ ''.__value)''
                else el_var nd @ ''.__value === '' @ snip)
         in Some (el_var nd @ ''.checked = '' @ condition @ '';''))
      else Some (el_var nd @ ''.'' @ name b @ '' = '' @ snip @ '';''))"

definition getBindingGroup :: "utils \<Rightarrow> compiler \<Rightarrow> ast_node \<Rightarrow> error + (int \<times> compiler)" where
  "getBindingGroup u c v =
     (case flattenReference u v of
        None \<Rightarrow> Inl TypeError
      | Some parts \<Rightarrow>
          (let keypath = join ''.'' parts;
               index = indexOf (bindingGroups c) keypath
           in if index = - 1
              then Inr (int (length (bindingGroups c)),
                        c\<lparr>bindingGroups := bindingGroups c @ [keypath]\<rparr>)
              else Inr (index, c)))"

definition isStoreName :: "string \<Rightarrow> bool" where
  "isStoreName p = (case p of [] \<Rightarrow> False | ch # rest \<Rightarrow> ch = CHR ''$'')"

definition getEventHandler ::
  "utils \<Rightarrow> binding \<Rightarrow> compiler \<Rightarrow> block \<Rightarrow> string \<Rightarrow> string \<Rightarrow> string list \<Rightarrow> string \<Rightarrow> handler"
where
  "getEventHandler u b c blk nm snip deps val =
     (let storeDependencies = map (drop 1) (filter isStoreName deps);
          deps1 = filter (\<lambda>p. \<not> isStoreName p) deps
      in if isContextual b then
           (let tail = (if isMemberExpression (node (value_expr b))
                        then getTailSnippet u (node (value_expr b)) else '''');
                head = (case bindings blk nm of None \<Rightarrow> ''undefined'' | Some h \<Rightarrow> h)
            in \<lparr> handler_usesContext = True,
                 usesState = True,
                 usesStore = (length storeDependencies > 0),
                 mutation = Some (head @ tail @ '' = '' @ val @ '';''),
                 props = map (\<lambda>p. p @ '': ctx.'' @ p) deps1,
                 storeProps = map (\<lambda>p. p @ '': $.'' @ p) storeDependencies \<rparr>)
         else if isMemberExpression (node (value_expr b)) then
           (let deps2 = filter (\<lambda>p. \<not> list_ex (\<lambda>cmp. key cmp = p) (computations c)) deps1
            in \<lparr> handler_usesContext = False,
                 usesState = True,
                 usesStore = (length storeDependencies > 0),
                 mutation = Some (snip @ '' = '' @ val),
                 props = map (\<lambda>p. p @ '': ctx.'' @ p) deps2,
                 storeProps = map (\<lambda>p. p @ '': $.'' @ p) storeDependencies \<rparr>)
         else
           (let (props0, storeProps0) =
                  (if isStoreName nm
                   then ([], [drop 1 nm @ '': '' @ val])
                   else ([nm @ '': '' @ val], []))
            in \<lparr> handler_usesContext = False,
                 usesState = False,
                 usesStore = False,
                 mutation = None,
                 props = props0,
                 storeProps = storeProps0 \<rparr>))"

definition getValueFromDom ::
  "utils \<Rightarrow> compiler \<Rightarrow> element \<Rightarrow> binding \<Rightarrow> error + (string \<times> compiler)"
where
  "getValueFromDom u c nd b =
     (if el_name nd = ''select'' then
        Inr (if getStaticAttributeValue nd ''multiple'' = JTrue
             then ''@selectMultipleValue('' @ el_var nd @ '')''
             else ''@selectValue('' @ el_var nd @ '')'', c)
      else
        (let type = getStaticAttributeValue nd ''type'' in
         if name b = ''group'' then
           (case getBindingGroup u c (node (value_expr b)) of
              Inl e \<Rightarrow> Inl e
            | Inr (bindingGroup, c') \<Rightarrow>
                if type = JStr ''checkbox''
                then Inr (''@getBindingGroupValue(#component._bindingGroups[''
                          @ js_number_string bindingGroup @ ''])'', c')
                else Inr (el_var nd @ ''.__value'', c'))
         else if type = JStr ''range'' \<or> type = JStr ''number'' then
           Inr (''@toNumber('' @ el_var nd @ ''.'' @ name b @ '')'', c)
         else if name b = ''buffered'' \<or> name b = ''seekable'' \<or> name b = ''played'' then
           Inr (''@timeRangesToArray('' @ el_var nd @ ''.'' @ name b @ '')'', c)
         else Inr (el_var nd @ ''.'' @ name b, c)))"

text \<open>The two statements the \<open>group\<close> case of \<open>munge\<close> adds for a node.\<close>

definition group_push_line :: "int \<Rightarrow> element \<Rightarrow> string" where
  "group_push_line bindingGroup nd =
     ''#component._bindingGroups['' @ js_number_string bindingGroup @ ''].push(''
     @ el_var nd @ '');''"

definition group_splice_line :: "int \<Rightarrow> element \<Rightarrow> string" where
  "group_splice_line bindingGroup nd =
     ''#component._bindingGroups['' @ js_number_string bindingGroup
     @ ''].splice(#component._bindingGroups['' @ js_number_string bindingGroup
     @ ''].indexOf('' @ el_var nd @ ''), 1);''"

text \<open>The \<open>group\<close> case: look the group up, then add one line to each of the two lists.\<close>

definition munge_group ::
  "utils \<Rightarrow> compiler \<Rightarrow> block \<Rightarrow> binding \<Rightarrow> error + (compiler \<times> block)"
where
  "munge_group u c blk b =
     (if name b = ''group'' then
        (case getBindingGroup u c (node (value_expr b)) of
           Inl e \<Rightarrow> Inl e
         | Inr (bindingGroup, c') \<Rightarrow>
             Inr (c', destroy_addLine
                        (hydrate_addLine blk (group_push_line bindingGroup (parent b)))
                        (group_splice_line bindingGroup (parent b))))
      else Inr (c, blk))"

definition munge ::
  "utils \<Rightarrow> compiler \<Rightarrow> block \<Rightarrow> binding \<Rightarrow> error + (synthesis \<times> compiler \<times> block)"
where
  "munge u c blk b =
     (let nd = parent b;
          needsLock0 = munge_needsLock nd;
          isReadOnly = munge_isReadOnly u b;
          nm = getObject u (node (value_expr b));
          snip = snippet (value_expr b);
          deps = munge_dependencies c b
      in case getValueFromDom u c nd b of
           Inl e \<Rightarrow> Inl e
         | Inr (valueFromDom, c1) \<Rightarrow>
             (let hdl = getEventHandler u b c1 blk nm snip deps valueFromDom;
                  updateDom0 = getDomUpdater nd b snip;
                  initialUpdate0 = updateDom0
              in case munge_group u c1 blk b of
                   Inl e \<Rightarrow> Inl e
                 | Inr (c2, blk1) \<Rightarrow>
                     (let (updateCondition1, initialUpdate1) =
                            (if name b = ''currentTime'' \<or> name b = ''volume''
                             then (Some (''!isNaN('' @ snip @ '')''),
                                   if name b = ''currentTime'' then None else initialUpdate0)
                             else (None, initialUpdate0));
                          (blk2, updateCondition2, updateDom2, initialUpdate2) =
                            (if name b = ''paused''
                             then (let (last, blk') =
                                         getUniqueName u blk1 (el_var nd @ ''_is_paused'')
                                   in (addVariable blk' last ''true'',
                                       Some (last @ '' !== ('' @ last @ '' = '' @ snip @ '')''),
                                       Some (el_var nd @ ''['' @ last
                                             @ '' ? \"pause\" : \"play\"]();''),
                                       None))
                             else (blk1, updateCondition1, updateDom0, initialUpdate1));
                          (initialUpdate3, updateDom3) =
                            (if dimensions_test u (name b)
                             then (None, None)
                             else (initialUpdate2, updateDom2))
                      in Inr (\<lparr> res_name = name b,
                                res_object = nm,
                                res_handler = hdl,
                                updateDom = updateDom3,
                                initialUpdate = initialUpdate3,
                                needsLock = (\<not> isReadOnly \<and> needsLock0),
                                updateCondition = updateCondition2,
                                res_isReadOnlyMediaAttribute = isReadOnlyMediaAttribute b \<rparr>,
                              c2, blk2))))"

text \<open>The synthesis result alone, when \<open>munge\<close> returns one.\<close>

definition munge_result :: "utils \<Rightarrow> compiler \<Rightarrow> block \<Rightarrow> binding \<Rightarrow> synthesis option" where
  "munge_result u c blk b =
     (case munge u c blk b of Inl e \<Rightarrow> None | Inr (r, c', blk') \<Rightarrow> Some r)"

text \<open>The compiler and the block \<open>munge\<close> leaves behind, when it returns.\<close>

definition munge_state :: "utils \<Rightarrow> compiler \<Rightarrow> block \<Rightarrow> binding \<Rightarrow> (compiler \<times> block) option" where
  "munge_state u c blk b =
     (case munge u c blk b of Inl e \<Rightarrow> None | Inr (r, c', blk') \<Rightarrow> Some (c', blk'))"

section \<open>Sequences of registry calls\<close>

text \<open>A run of \<open>getBindingGroup\<close> over the target nodes \<open>vs\<close> in turn, on one compiler: the
  indices returned, in call order, and the compiler afterwards.\<close>

fun getBindingGroups ::
  "utils \<Rightarrow> compiler \<Rightarrow> ast_node list \<Rightarrow> error + (int list \<times> compiler)"
where
  "getBindingGroups u c [] = Inr ([], c)"
| "getBindingGroups u c (v # vs) =
     (case getBindingGroup u c v of
        Inl e \<Rightarrow> Inl e
      | Inr (i, c') \<Rightarrow>
          (case getBindingGroups u c' vs of
             Inl e \<Rightarrow> Inl e
           | Inr (is, c'') \<Rightarrow> Inr (i # is, c'')))"

text \<open>The spec's "order of first use": each keypath once, at the place of its first
  occurrence.\<close>

fun first_seen :: "'a list \<Rightarrow> 'a list" where
  "first_seen [] = []"
| "first_seen (x # xs) = x # removeAll x (first_seen xs)"

section \<open>Concrete inputs\<close>

text \<open>
  An instance of the imported helpers for evaluating the model on examples: the dimension
  names of the comment in \<open>munge\<close> (\<open>bind:offsetWidth\<close>, \<open>bind:offsetHeight\<close>), the leftmost
  identifier as the object's name, the identifier path as the flattened parts (none for a
  computed member), and a unique-name allocator that returns the name asked for.
\<close>

fun sample_getObject :: "ast_node \<Rightarrow> string" where
  "sample_getObject (Identifier n) = n"
| "sample_getObject (MemberExpression obj prp computed) = sample_getObject obj"

fun sample_flattenReference :: "ast_node \<Rightarrow> string list option" where
  "sample_flattenReference (Identifier n) = Some [n]"
| "sample_flattenReference (MemberExpression obj prp computed) =
     (if computed then None
      else (case (sample_flattenReference obj, prp) of
              (Some ps, Identifier p) \<Rightarrow> Some (ps @ [p])
            | _ \<Rightarrow> None))"

fun sample_getTailSnippet :: "ast_node \<Rightarrow> string" where
  "sample_getTailSnippet (MemberExpression obj (Identifier p) computed) = ''.'' @ p"
| "sample_getTailSnippet v = []"

definition sample_utils :: utils where
  "sample_utils =
     \<lparr> dimensions_test = (\<lambda>n. n = ''offsetWidth'' \<or> n = ''offsetHeight''),
       getObject = sample_getObject,
       getTailSnippet = sample_getTailSnippet,
       flattenReference = sample_flattenReference,
       getUniqueName = (\<lambda>blk n. (n, blk)) \<rparr>"

definition sample_compiler :: compiler where
  "sample_compiler =
     \<lparr> bindingGroups = [],
       indirectDependencies = [''selected'' \<mapsto> [''items'', ''chosen'']],
       computations = [\<lparr> key = ''total'' \<rparr>] \<rparr>"

definition sample_block :: block where
  "sample_block =
     \<lparr> builders_hydrate = [], builders_destroy = [],
       variables = Map.empty, bindings = Map.empty \<rparr>"

definition sample_element :: "string \<Rightarrow> string \<Rightarrow> js_value \<Rightarrow> bool \<Rightarrow> element" where
  "sample_element tag v type media =
     \<lparr> el_name = tag, el_var = v,
       getStaticAttributeValue = (\<lambda>a. if a = ''type'' then type else JNull),
       isMediaNode = media \<rparr>"

definition sample_binding ::
  "string \<Rightarrow> ast_node \<Rightarrow> string \<Rightarrow> string list \<Rightarrow> element \<Rightarrow> binding"
where
  "sample_binding n v snip deps nd =
     \<lparr> name = n,
       value_expr = \<lparr> node = v, snippet = snip, dependencies = deps \<rparr>,
       isContextual = False, usesContext = isMemberExpression v,
       binding_obj = ''ctx'', binding_prop = n, parent = nd \<rparr>"

text \<open>\<open>selected.items\<close>, \<open>selected.done\<close> and elements they are bound on.\<close>

definition selected_items :: ast_node where
  "selected_items = MemberExpression (Identifier ''selected'') (Identifier ''items'') False"

definition selected_done :: ast_node where
  "selected_done = MemberExpression (Identifier ''selected'') (Identifier ''done'') False"

definition audio_element :: element where
  "audio_element = sample_element ''audio'' ''audio'' JNull True"

definition div_element :: element where
  "div_element = sample_element ''div'' ''div'' JNull False"

definition text_input :: element where
  "text_input = sample_element ''input'' ''input'' (JStr ''text'') False"

definition checkbox0 :: element where
  "checkbox0 = sample_element ''input'' ''input0'' (JStr ''checkbox'') False"

definition checkbox1 :: element where
  "checkbox1 = sample_element ''input'' ''input1'' (JStr ''checkbox'') False"

definition media_binding :: "string \<Rightarrow> element \<Rightarrow> binding" where
  "media_binding n nd = sample_binding n (Identifier ''t'') ''ctx.t'' [''t''] nd"

definition group_binding :: "element \<Rightarrow> binding" where
  "group_binding nd =
     sample_binding ''group'' selected_items ''ctx.selected.items'' [''selected''] nd"

definition checked_binding :: binding where
  "checked_binding =
     sample_binding ''checked'' selected_done ''ctx.selected.done''
       [''selected'', ''total'', ''$user''] checkbox0"

lemmas sample_defs =
  sample_utils_def sample_compiler_def sample_block_def sample_element_def
  sample_binding_def selected_items_def selected_done_def audio_element_def
  div_element_def text_input_def checkbox0_def checkbox1_def media_binding_def
  group_binding_def checked_binding_def

section \<open>The event handler\<close>

lemma prop_entry_inj: "p @ '': ctx.'' @ p = q @ '': ctx.'' @ q \<Longrightarrow> p = q"
proof -
  assume h: "p @ '': ctx.'' @ p = q @ '': ctx.'' @ q"
  then have "length (p @ '': ctx.'' @ p) = length (q @ '': ctx.'' @ q)" by simp
  then have "length p = length q" by simp
  with h show "p = q" by simp
qed

lemma isStoreName_prefix: "isStoreName p = prefix ''$'' p"
  by (cases p) (auto simp: isStoreName_def)

text \<open>
  C7. For a target that is not contextual and not a member expression (a bare identifier):
  when the name starts with \<open>$\<close> the handler's props are empty and its storeProps hold the
  single entry that sends the value to the store under the name without the sigil;
  otherwise props hold the single entry for the name and storeProps are empty. In both
  cases there is no mutation statement.
\<close>

theorem getEventHandler_identifier:
  assumes "\<not> isContextual b" and "\<not> isMemberExpression (node (value_expr b))"
  shows "(prefix ''$'' nm \<longrightarrow>
            props (getEventHandler u b c blk nm snip deps val) = []
          \<and> storeProps (getEventHandler u b c blk nm snip deps val) = [drop 1 nm @ '': '' @ val])
       \<and> (\<not> prefix ''$'' nm \<longrightarrow>
            props (getEventHandler u b c blk nm snip deps val) = [nm @ '': '' @ val]
          \<and> storeProps (getEventHandler u b c blk nm snip deps val) = [])
       \<and> mutation (getEventHandler u b c blk nm snip deps val) = None"
  using assms by (simp add: getEventHandler_def isStoreName_prefix Let_def)

theorem getEventHandler_identifier_witness:
  "\<not> isContextual (media_binding ''value'' text_input)
   \<and> \<not> isMemberExpression (node (value_expr (media_binding ''value'' text_input)))
   \<and> prefix ''$'' ''$count'' \<and> \<not> prefix ''$'' ''count''
   \<and> props (getEventHandler sample_utils (media_binding ''value'' text_input) sample_compiler
              sample_block ''$count'' ''$.count'' [''$count''] ''input.value'') = []
   \<and> storeProps (getEventHandler sample_utils (media_binding ''value'' text_input) sample_compiler
              sample_block ''$count'' ''$.count'' [''$count''] ''input.value'')
       = [''count: input.value'']
   \<and> props (getEventHandler sample_utils (media_binding ''value'' text_input) sample_compiler
              sample_block ''count'' ''ctx.count'' [''count''] ''input.value'')
       = [''count: input.value'']
   \<and> storeProps (getEventHandler sample_utils (media_binding ''value'' text_input) sample_compiler
              sample_block ''count'' ''ctx.count'' [''count''] ''input.value'') = []
   \<and> mutation (getEventHandler sample_utils (media_binding ''value'' text_input) sample_compiler
              sample_block ''count'' ''ctx.count'' [''count''] ''input.value'') = None"
proof -
  have h1: "\<not> isContextual (media_binding ''value'' text_input)"
    by (simp add: sample_defs)
  have h2: "\<not> isMemberExpression (node (value_expr (media_binding ''value'' text_input)))"
    by (simp add: sample_defs)
  show ?thesis
    using h1 h2
      getEventHandler_identifier [OF h1 h2, of "''$count''" sample_utils sample_compiler
        sample_block "''$.count''" "[''$count'']" "''input.value''"]
      getEventHandler_identifier [OF h1 h2, of "''count''" sample_utils sample_compiler
        sample_block "''ctx.count''" "[''count'']" "''input.value''"]
    by simp
qed

text \<open>
  C3. For a member-expression target that is not contextual, and any dependencies, the
  handler's props are the entries of the local (not \<open>$\<close>-prefixed) dependencies that are
  no key of \<open>compiler.computations\<close>, in order; so the entry of a computed name is never
  among the props.
\<close>

theorem getEventHandler_member_props:
  assumes "\<not> isContextual b" and "isMemberExpression (node (value_expr b))"
  shows "props (getEventHandler u b c blk nm snip deps val)
           = map (\<lambda>p. p @ '': ctx.'' @ p)
                 (filter (\<lambda>p. p \<notin> key ` set (computations c))
                         (filter (\<lambda>p. \<not> prefix ''$'' p) deps))
       \<and> (\<forall>k \<in> key ` set (computations c).
             k @ '': ctx.'' @ k \<notin> set (props (getEventHandler u b c blk nm snip deps val)))"
proof -
  have ex: "list_ex (\<lambda>cmp. key cmp = p) (computations c) = (p \<in> key ` set (computations c))"
    for p
    by (auto simp: list_ex_iff)
  have p: "props (getEventHandler u b c blk nm snip deps val)
           = map (\<lambda>p. p @ '': ctx.'' @ p)
                 (filter (\<lambda>p. p \<notin> key ` set (computations c))
                         (filter (\<lambda>p. \<not> prefix ''$'' p) deps))"
    using assms by (simp add: getEventHandler_def isStoreName_prefix Let_def ex)
  have "k @ '': ctx.'' @ k \<notin> set (props (getEventHandler u b c blk nm snip deps val))"
    if "k \<in> key ` set (computations c)" for k
  proof
    assume "k @ '': ctx.'' @ k \<in> set (props (getEventHandler u b c blk nm snip deps val))"
    then obtain q where q: "q \<notin> key ` set (computations c)"
      and e: "k @ '': ctx.'' @ k = q @ '': ctx.'' @ q"
      unfolding p by auto
    from e have "k = q" by (rule prop_entry_inj)
    with q that show False by simp
  qed
  with p show ?thesis by blast
qed

theorem getEventHandler_member_props_witness:
  "\<not> isContextual checked_binding
   \<and> isMemberExpression (node (value_expr checked_binding))
   \<and> ''total'' \<in> key ` set (computations sample_compiler)
   \<and> props (getEventHandler sample_utils checked_binding
              sample_compiler sample_block ''selected'' ''ctx.selected.done''
              [''selected'', ''total'', ''$user''] ''input0.checked'')
       = [''selected: ctx.selected'']
   \<and> ''total: ctx.total'' \<notin> set (props (getEventHandler sample_utils checked_binding
              sample_compiler sample_block ''selected'' ''ctx.selected.done''
              [''selected'', ''total'', ''$user''] ''input0.checked''))"
proof -
  have h1: "\<not> isContextual checked_binding" by (simp add: sample_defs)
  have h2: "isMemberExpression (node (value_expr checked_binding))" by (simp add: sample_defs)
  have h3: "''total'' \<in> key ` set (computations sample_compiler)"
    by (simp add: sample_defs)
  note t = getEventHandler_member_props [OF h1 h2, of sample_utils sample_compiler
             sample_block "''selected''" "''ctx.selected.done''"
             "[''selected'', ''total'', ''$user'']" "''input0.checked''"]
  from t have a: "props (getEventHandler sample_utils checked_binding sample_compiler
             sample_block ''selected'' ''ctx.selected.done''
             [''selected'', ''total'', ''$user''] ''input0.checked'')
           = [''selected: ctx.selected'']"
    by (simp add: sample_defs)
  from t h3 have b: "''total'' @ '': ctx.'' @ ''total'' \<notin> set (props (getEventHandler
             sample_utils checked_binding sample_compiler sample_block
             ''selected'' ''ctx.selected.done'' [''selected'', ''total'', ''$user'']
             ''input0.checked''))"
    by blast
  from h1 h2 h3 a b show ?thesis by simp
qed

section \<open>munge\<close>

lemma getValueFromDom_other:
  "name b \<noteq> ''group'' \<Longrightarrow> \<exists>v. getValueFromDom u c nd b = Inr (v, c)"
  by (simp add: getValueFromDom_def Let_def)

lemma getBindingGroup_Some:
  "flattenReference u v = Some ps \<Longrightarrow> \<exists>i c'. getBindingGroup u c v = Inr (i, c')"
  by (simp add: getBindingGroup_def Let_def)

lemma getValueFromDom_group:
  "flattenReference u (node (value_expr b)) = Some ps \<Longrightarrow> \<exists>v c'. getValueFromDom u c nd b = Inr (v, c')"
  using getBindingGroup_Some [of u "node (value_expr b)" ps c]
  by (auto simp add: getValueFromDom_def Let_def)

lemma munge_group_other:
  "name b \<noteq> ''group'' \<Longrightarrow> munge_group u c blk b = Inr (c, blk)"
  by (simp add: munge_group_def)

lemma munge_group_Some:
  "flattenReference u (node (value_expr b)) = Some ps \<Longrightarrow> \<exists>c' blk'. munge_group u c blk b = Inr (c', blk')"
  using getBindingGroup_Some [of u "node (value_expr b)" ps c]
  by (auto simp add: munge_group_def)

lemma munge_returns:
  assumes "name b = ''group'' \<longrightarrow> flattenReference u (node (value_expr b)) \<noteq> None"
  shows "\<exists>r c' blk'. munge u c blk b = Inr (r, c', blk')"
proof (cases "name b = ''group''")
  case True
  with assms obtain ps where ps: "flattenReference u (node (value_expr b)) = Some ps" by auto
  obtain v c1 where v: "getValueFromDom u c (parent b) b = Inr (v, c1)"
    using getValueFromDom_group [OF ps] by blast
  obtain c2 blk1 where g: "munge_group u c1 blk b = Inr (c2, blk1)"
    using munge_group_Some [OF ps] by blast
  show ?thesis
    by (simp add: munge_def Let_def v g split: prod.splits)
next
  case False
  obtain v where v: "getValueFromDom u c (parent b) b = Inr (v, c)"
    using getValueFromDom_other [OF False] by blast
  show ?thesis
    by (simp add: munge_def Let_def v munge_group_other [OF False] split: prod.splits)
qed

lemma munge_fields:
  assumes "munge u c blk b = Inr (r, c', blk')"
  shows "needsLock r = (\<not> munge_isReadOnly u b \<and> munge_needsLock (parent b))"
    and "res_isReadOnlyMediaAttribute r = isReadOnlyMediaAttribute b"
    and "res_name r = name b"
    and "res_object r = getObject u (node (value_expr b))"
  using assms
  by (auto simp: munge_def Let_def split: sum.splits prod.splits if_splits)

lemma munge_updates:
  assumes "munge u c blk b = Inr (r, c', blk')"
  shows "initialUpdate r =
           (if dimensions_test u (name b) \<or> name b = ''paused'' \<or> name b = ''currentTime''
            then None else getDomUpdater (parent b) b (snippet (value_expr b)))"
    and "updateDom r =
           (if dimensions_test u (name b) then None
            else if name b = ''paused''
            then Some (el_var (parent b) @ ''[''
                       @ fst (getUniqueName u blk (el_var (parent b) @ ''_is_paused''))
                       @ '' ? \"pause\" : \"play\"]();'')
            else getDomUpdater (parent b) b (snippet (value_expr b)))"
    and "updateCondition r =
           (if name b = ''paused''
            then Some (fst (getUniqueName u blk (el_var (parent b) @ ''_is_paused'')) @ '' !== (''
                       @ fst (getUniqueName u blk (el_var (parent b) @ ''_is_paused'')) @ '' = ''
                       @ snippet (value_expr b) @ '')'')
            else if name b = ''currentTime'' \<or> name b = ''volume''
            then Some (''!isNaN('' @ snippet (value_expr b) @ '')'')
            else None)"
  using assms
  by (auto simp: munge_def Let_def munge_group_def split: sum.splits prod.splits if_splits)


lemmas munge_eval =
  munge_result_def munge_def getValueFromDom_def munge_group_def getBindingGroup_def
  getDomUpdater_def getEventHandler_def munge_isReadOnly_def munge_needsLock_def
  lock_exempt_test_def readOnlyMediaAttributes_def isReadOnlyMediaAttribute_def
  munge_dependencies_def new_Set_def set_add_def isStoreName_def addVariable_def
  hydrate_addLine_def destroy_addLine_def group_push_line_def group_splice_line_def
  js_number_string_def string_of_nat.simps Let_def

text \<open>
  C1, as stated, fails: \<open>munge\<close> returns \<open>!isReadOnly && needsLock\<close>, so a read-only binding
  never needs the lock, whatever the host element is. \<open>bind:duration\<close> on an audio element
  (not an input at all) has \<open>needsLock\<close> false. The pattern is also searched anywhere in
  the attribute: \<open>bind:value\<close> on an input whose static type is \<open>daterange\<close>, none of the
  four kinds, has \<open>needsLock\<close> false as well.
\<close>

theorem munge_needsLock_counterexample:
  "el_name (parent (media_binding ''duration'' audio_element)) \<noteq> ''input''
   \<and> map_option needsLock (munge_result sample_utils sample_compiler sample_block
        (media_binding ''duration'' audio_element)) = Some False
   \<and> JStr ''daterange'' \<notin> {JStr ''radio'', JStr ''checkbox'', JStr ''range'', JStr ''color''}
   \<and> map_option needsLock (munge_result sample_utils sample_compiler sample_block
        (media_binding ''value'' (sample_element ''input'' ''input'' (JStr ''daterange'') False)))
       = Some False"
  by (simp add: munge_eval sample_defs)

text \<open>
  C1, amended. When \<open>munge\<close> returns (it raises only for a \<open>group\<close> binding whose target
  cannot be flattened): for a read-only binding (a read-only media attribute on a media
  element, or a dimension binding) \<open>needsLock\<close> is false. For any other binding it is true
  when the host is not an input or the string of its static \<open>type\<close> attribute contains none
  of radio, checkbox, range, color, and false when the host is an input whose static
  \<open>type\<close> is one of those four.
\<close>

theorem munge_needsLock_amended:
  assumes "name b = ''group'' \<longrightarrow> flattenReference u (node (value_expr b)) \<noteq> None"
  shows "\<exists>r c' blk'. munge u c blk b = Inr (r, c', blk')
     \<and> (((isMediaNode (parent b)
            \<and> name b \<in> {''duration'', ''buffered'', ''seekable'', ''played''})
          \<or> dimensions_test u (name b)) \<longrightarrow> \<not> needsLock r)
     \<and> (\<not> ((isMediaNode (parent b)
            \<and> name b \<in> {''duration'', ''buffered'', ''seekable'', ''played''})
          \<or> dimensions_test u (name b)) \<longrightarrow>
          ((el_name (parent b) \<noteq> ''input''
            \<or> \<not> lock_exempt_test (getStaticAttributeValue (parent b) ''type''))
             \<longrightarrow> needsLock r)
        \<and> (el_name (parent b) = ''input''
            \<and> getStaticAttributeValue (parent b) ''type''
                 \<in> {JStr ''radio'', JStr ''checkbox'', JStr ''range'', JStr ''color''}
             \<longrightarrow> \<not> needsLock r))"
proof -
  obtain r c' blk' where m: "munge u c blk b = Inr (r, c', blk')"
    using munge_returns [OF assms] by blast
  have ex: "lock_exempt_test v"
    if "v \<in> {JStr ''radio'', JStr ''checkbox'', JStr ''range'', JStr ''color''}" for v
    using that by (auto simp: lock_exempt_test_def)
  have "needsLock r = (\<not> munge_isReadOnly u b \<and> munge_needsLock (parent b))"
    using munge_fields(1) [OF m] .
  then show ?thesis
    using m ex [of "getStaticAttributeValue (parent b) ''type''"]
    by (auto simp: munge_isReadOnly_def munge_needsLock_def readOnlyMediaAttributes_def)
qed


theorem munge_needsLock_amended_witness:
  "name (media_binding ''duration'' audio_element) \<noteq> ''group''
   \<and> name (media_binding ''value'' text_input) \<noteq> ''group''
   \<and> name (media_binding ''checked'' checkbox0) \<noteq> ''group''
   \<and> isMediaNode (parent (media_binding ''duration'' audio_element))
   \<and> map_option needsLock (munge_result sample_utils sample_compiler sample_block
        (media_binding ''duration'' audio_element)) = Some False
   \<and> \<not> lock_exempt_test (getStaticAttributeValue (parent (media_binding ''value'' text_input)) ''type'')
   \<and> map_option needsLock (munge_result sample_utils sample_compiler sample_block
        (media_binding ''value'' text_input)) = Some True
   \<and> el_name (parent (media_binding ''checked'' checkbox0)) = ''input''
   \<and> getStaticAttributeValue (parent (media_binding ''checked'' checkbox0)) ''type'' = JStr ''checkbox''
   \<and> map_option needsLock (munge_result sample_utils sample_compiler sample_block
        (media_binding ''checked'' checkbox0)) = Some False"
  using munge_needsLock_amended [of "media_binding ''duration'' audio_element" sample_utils
          sample_compiler sample_block]
        munge_needsLock_amended [of "media_binding ''value'' text_input" sample_utils
          sample_compiler sample_block]
        munge_needsLock_amended [of "media_binding ''checked'' checkbox0" sample_utils
          sample_compiler sample_block]
  by (simp add: munge_eval sample_defs)

text \<open>
  C4. For a binding whose name is one of duration, buffered, seekable, played on a media
  element, or whose name matches the dimension pattern, \<open>munge\<close> returns a result with no
  write statement (\<open>updateDom\<close> and \<open>initialUpdate\<close> are null); the read-only status shows
  in \<open>needsLock\<close> being false (\<open>isReadOnly\<close> is true), and \<open>isReadOnlyMediaAttribute\<close> tells
  whether the name is in the media set.
\<close>

theorem munge_readonly:
  assumes "(isMediaNode (parent b)
            \<and> name b \<in> {''duration'', ''buffered'', ''seekable'', ''played''})
           \<or> dimensions_test u (name b)"
    and "name b = ''group'' \<longrightarrow> flattenReference u (node (value_expr b)) \<noteq> None"
  shows "\<exists>r c' blk'. munge u c blk b = Inr (r, c', blk')
     \<and> updateDom r = None \<and> initialUpdate r = None \<and> \<not> needsLock r
     \<and> res_isReadOnlyMediaAttribute r
         = (name b \<in> {''duration'', ''buffered'', ''seekable'', ''played''})"
proof -
  obtain r c' blk' where m: "munge u c blk b = Inr (r, c', blk')"
    using munge_returns [OF assms(2)] by blast
  have ro: "munge_isReadOnly u b"
    using assms(1) by (simp add: munge_isReadOnly_def readOnlyMediaAttributes_def)
  have g: "name b \<in> {''duration'', ''buffered'', ''seekable'', ''played''}
           \<Longrightarrow> getDomUpdater (parent b) b (snippet (value_expr b)) = None"
    by (simp add: getDomUpdater_def isReadOnlyMediaAttribute_def readOnlyMediaAttributes_def)
  have u: "updateDom r = None"
    using assms(1) g by (auto simp: munge_updates(2) [OF m])
  have i: "initialUpdate r = None"
    using assms(1) g by (auto simp: munge_updates(1) [OF m])
  have l: "\<not> needsLock r"
    using ro by (simp add: munge_fields(1) [OF m])
  have a: "res_isReadOnlyMediaAttribute r
         = (name b \<in> {''duration'', ''buffered'', ''seekable'', ''played''})"
    by (simp add: munge_fields(2) [OF m] isReadOnlyMediaAttribute_def
          readOnlyMediaAttributes_def)
  from m u i l a show ?thesis by blast
qed

theorem munge_readonly_witness:
  "isMediaNode (parent (media_binding ''buffered'' audio_element))
   \<and> name (media_binding ''buffered'' audio_element)
        \<in> {''duration'', ''buffered'', ''seekable'', ''played''}
   \<and> map_option updateDom (munge_result sample_utils sample_compiler sample_block
        (media_binding ''buffered'' audio_element)) = Some None
   \<and> map_option res_isReadOnlyMediaAttribute (munge_result sample_utils sample_compiler
        sample_block (media_binding ''buffered'' audio_element)) = Some True
   \<and> dimensions_test sample_utils (name (media_binding ''offsetWidth'' div_element))
   \<and> map_option updateDom (munge_result sample_utils sample_compiler sample_block
        (media_binding ''offsetWidth'' div_element)) = Some None
   \<and> map_option needsLock (munge_result sample_utils sample_compiler sample_block
        (media_binding ''offsetWidth'' div_element)) = Some False
   \<and> map_option res_isReadOnlyMediaAttribute (munge_result sample_utils sample_compiler
        sample_block (media_binding ''offsetWidth'' div_element)) = Some False"
  using munge_readonly [of "media_binding ''buffered'' audio_element" sample_utils
          sample_compiler sample_block]
        munge_readonly [of "media_binding ''offsetWidth'' div_element" sample_utils
          sample_compiler sample_block]
  by (simp add: munge_eval sample_defs)

text \<open>
  C5. A binding named \<open>currentTime\<close> and a binding with a dimension name have no initial
  update. For a binding named \<open>paused\<close> (which the dimension pattern does not match) the
  update statement is the play/pause call on the element, selected by the variable that
  holds the last paused state, and not the assignment to the element's property; the
  update condition compares that variable with the new value, and there is no initial
  update.
\<close>

theorem munge_initial_update_and_paused:
  "(name b = ''currentTime'' \<longrightarrow>
      (\<exists>r c' blk'. munge u c blk b = Inr (r, c', blk') \<and> initialUpdate r = None))
   \<and> (dimensions_test u (name b)
        \<and> (name b = ''group'' \<longrightarrow> flattenReference u (node (value_expr b)) \<noteq> None) \<longrightarrow>
      (\<exists>r c' blk'. munge u c blk b = Inr (r, c', blk') \<and> initialUpdate r = None))
   \<and> (name b = ''paused'' \<and> \<not> dimensions_test u ''paused'' \<longrightarrow>
      (\<exists>r c' blk' last. munge u c blk b = Inr (r, c', blk')
         \<and> last = fst (getUniqueName u blk (el_var (parent b) @ ''_is_paused''))
         \<and> updateDom r = Some (el_var (parent b) @ ''['' @ last @ '' ? \"pause\" : \"play\"]();'')
         \<and> updateDom r
             \<noteq> Some (el_var (parent b) @ ''.'' @ name b @ '' = '' @ snippet (value_expr b) @ '';'')
         \<and> updateCondition r
             = Some (last @ '' !== ('' @ last @ '' = '' @ snippet (value_expr b) @ '')'')
         \<and> initialUpdate r = None))"
proof (intro conjI impI)
  assume n: "name b = ''currentTime''"
  then obtain r c' blk' where m: "munge u c blk b = Inr (r, c', blk')"
    using munge_returns [of b u c blk] by auto
  from n have "initialUpdate r = None" by (simp add: munge_updates(1) [OF m])
  with m show "\<exists>r c' blk'. munge u c blk b = Inr (r, c', blk') \<and> initialUpdate r = None"
    by blast
next
  assume d: "dimensions_test u (name b)
        \<and> (name b = ''group'' \<longrightarrow> flattenReference u (node (value_expr b)) \<noteq> None)"
  then obtain r c' blk' where m: "munge u c blk b = Inr (r, c', blk')"
    using munge_returns [of b u c blk] by auto
  from d have "initialUpdate r = None" by (simp add: munge_updates(1) [OF m])
  with m show "\<exists>r c' blk'. munge u c blk b = Inr (r, c', blk') \<and> initialUpdate r = None"
    by blast
next
  assume p: "name b = ''paused'' \<and> \<not> dimensions_test u ''paused''"
  then obtain r c' blk' where m: "munge u c blk b = Inr (r, c', blk')"
    using munge_returns [of b u c blk] by auto
  from p have a: "updateDom r = Some (el_var (parent b) @ ''[''
        @ fst (getUniqueName u blk (el_var (parent b) @ ''_is_paused''))
        @ '' ? \"pause\" : \"play\"]();'')"
    by (simp add: munge_updates(2) [OF m])
  from p have b: "updateCondition r
      = Some (fst (getUniqueName u blk (el_var (parent b) @ ''_is_paused'')) @ '' !== (''
              @ fst (getUniqueName u blk (el_var (parent b) @ ''_is_paused'')) @ '' = ''
              @ snippet (value_expr b) @ '')'')"
    by (simp add: munge_updates(3) [OF m])
  from p have i: "initialUpdate r = None" by (simp add: munge_updates(1) [OF m])
  from a have ne: "updateDom r
      \<noteq> Some (el_var (parent b) @ ''.'' @ name b @ '' = '' @ snippet (value_expr b) @ '';'')"
    by simp
  from m a b i ne
  show "\<exists>r c' blk' last. munge u c blk b = Inr (r, c', blk')
         \<and> last = fst (getUniqueName u blk (el_var (parent b) @ ''_is_paused''))
         \<and> updateDom r = Some (el_var (parent b) @ ''['' @ last @ '' ? \"pause\" : \"play\"]();'')
         \<and> updateDom r
             \<noteq> Some (el_var (parent b) @ ''.'' @ name b @ '' = '' @ snippet (value_expr b) @ '';'')
         \<and> updateCondition r
             = Some (last @ '' !== ('' @ last @ '' = '' @ snippet (value_expr b) @ '')'')
         \<and> initialUpdate r = None"
    by blast
qed


theorem munge_initial_update_and_paused_witness:
  "name (media_binding ''currentTime'' audio_element) = ''currentTime''
   \<and> map_option initialUpdate (munge_result sample_utils sample_compiler sample_block
        (media_binding ''currentTime'' audio_element)) = Some None
   \<and> dimensions_test sample_utils (name (media_binding ''offsetHeight'' div_element))
   \<and> name (media_binding ''offsetHeight'' div_element) \<noteq> ''group''
   \<and> map_option initialUpdate (munge_result sample_utils sample_compiler sample_block
        (media_binding ''offsetHeight'' div_element)) = Some None
   \<and> name (media_binding ''paused'' audio_element) = ''paused''
   \<and> \<not> dimensions_test sample_utils ''paused''
   \<and> map_option updateDom (munge_result sample_utils sample_compiler sample_block
        (media_binding ''paused'' audio_element))
       = Some (Some ''audio[audio_is_paused ? \"pause\" : \"play\"]();'')
   \<and> map_option updateCondition (munge_result sample_utils sample_compiler sample_block
        (media_binding ''paused'' audio_element))
       = Some (Some ''audio_is_paused !== (audio_is_paused = ctx.t)'')
   \<and> map_option initialUpdate (munge_result sample_utils sample_compiler sample_block
        (media_binding ''paused'' audio_element)) = Some None"
  using munge_initial_update_and_paused [of "media_binding ''currentTime'' audio_element"
          sample_utils sample_compiler sample_block]
        munge_initial_update_and_paused [of "media_binding ''offsetHeight'' div_element"
          sample_utils sample_compiler sample_block]
        munge_initial_update_and_paused [of "media_binding ''paused'' audio_element"
          sample_utils sample_compiler sample_block]
  by (simp add: munge_eval sample_defs)

text \<open>
  C6. For a binding named \<open>currentTime\<close> or \<open>volume\<close> the update condition is the
  \<open>!isNaN\<close> test of the value's snippet. \<open>currentTime\<close> has no initial update; \<open>volume\<close>
  (which the dimension pattern does not match) keeps the statement of \<open>getDomUpdater\<close> as
  both its update and its initial update.
\<close>

theorem munge_not_nan_guard:
  "(name b = ''currentTime'' \<longrightarrow>
      (\<exists>r c' blk'. munge u c blk b = Inr (r, c', blk')
         \<and> updateCondition r = Some (''!isNaN('' @ snippet (value_expr b) @ '')'')
         \<and> initialUpdate r = None))
   \<and> (name b = ''volume'' \<longrightarrow>
      (\<exists>r c' blk'. munge u c blk b = Inr (r, c', blk')
         \<and> updateCondition r = Some (''!isNaN('' @ snippet (value_expr b) @ '')'')
         \<and> (\<not> dimensions_test u ''volume'' \<longrightarrow>
               initialUpdate r = updateDom r
             \<and> initialUpdate r = getDomUpdater (parent b) b (snippet (value_expr b))
             \<and> initialUpdate r \<noteq> None)))"
proof (intro conjI impI)
  assume n: "name b = ''currentTime''"
  then obtain r c' blk' where m: "munge u c blk b = Inr (r, c', blk')"
    using munge_returns [of b u c blk] by auto
  from n have "updateCondition r = Some (''!isNaN('' @ snippet (value_expr b) @ '')'')"
    and "initialUpdate r = None"
    by (simp_all add: munge_updates [OF m])
  with m show "\<exists>r c' blk'. munge u c blk b = Inr (r, c', blk')
         \<and> updateCondition r = Some (''!isNaN('' @ snippet (value_expr b) @ '')'')
         \<and> initialUpdate r = None"
    by blast
next
  assume n: "name b = ''volume''"
  then obtain r c' blk' where m: "munge u c blk b = Inr (r, c', blk')"
    using munge_returns [of b u c blk] by auto
  from n have g: "getDomUpdater (parent b) b (snippet (value_expr b)) \<noteq> None"
    by (simp add: getDomUpdater_def isReadOnlyMediaAttribute_def readOnlyMediaAttributes_def)
  from n have a: "updateCondition r = Some (''!isNaN('' @ snippet (value_expr b) @ '')'')"
    by (simp add: munge_updates(3) [OF m])
  from n g have b: "\<not> dimensions_test u ''volume'' \<longrightarrow>
               initialUpdate r = updateDom r
             \<and> initialUpdate r = getDomUpdater (parent b) b (snippet (value_expr b))
             \<and> initialUpdate r \<noteq> None"
    by (simp add: munge_updates(1,2) [OF m])
  from m a b show "\<exists>r c' blk'. munge u c blk b = Inr (r, c', blk')
         \<and> updateCondition r = Some (''!isNaN('' @ snippet (value_expr b) @ '')'')
         \<and> (\<not> dimensions_test u ''volume'' \<longrightarrow>
               initialUpdate r = updateDom r
             \<and> initialUpdate r = getDomUpdater (parent b) b (snippet (value_expr b))
             \<and> initialUpdate r \<noteq> None)"
    by blast
qed

theorem munge_not_nan_guard_witness:
  "name (media_binding ''currentTime'' audio_element) = ''currentTime''
   \<and> map_option updateCondition (munge_result sample_utils sample_compiler sample_block
        (media_binding ''currentTime'' audio_element)) = Some (Some ''!isNaN(ctx.t)'')
   \<and> map_option initialUpdate (munge_result sample_utils sample_compiler sample_block
        (media_binding ''currentTime'' audio_element)) = Some None
   \<and> map_option updateDom (munge_result sample_utils sample_compiler sample_block
        (media_binding ''currentTime'' audio_element))
       = Some (Some ''audio.currentTime = ctx.t;'')
   \<and> name (media_binding ''volume'' audio_element) = ''volume''
   \<and> \<not> dimensions_test sample_utils ''volume''
   \<and> map_option updateCondition (munge_result sample_utils sample_compiler sample_block
        (media_binding ''volume'' audio_element)) = Some (Some ''!isNaN(ctx.t)'')
   \<and> map_option initialUpdate (munge_result sample_utils sample_compiler sample_block
        (media_binding ''volume'' audio_element)) = Some (Some ''audio.volume = ctx.t;'')
   \<and> map_option updateDom (munge_result sample_utils sample_compiler sample_block
        (media_binding ''volume'' audio_element)) = Some (Some ''audio.volume = ctx.t;'')"
  using munge_not_nan_guard [of "media_binding ''currentTime'' audio_element"
          sample_utils sample_compiler sample_block]
        munge_not_nan_guard [of "media_binding ''volume'' audio_element"
          sample_utils sample_compiler sample_block]
  by (simp add: munge_eval sample_defs)

text \<open>
  C10. For a binding whose name is one of duration, buffered, seekable, played on an
  element that is not a media node, \<open>munge\<close> still returns no update statement and still
  reports \<open>isReadOnlyMediaAttribute\<close> true; yet (the name matching no dimension pattern)
  the \<open>isReadOnly\<close> flag of \<open>munge\<close> is false, so \<open>needsLock\<close> is decided by the element
  alone.
\<close>

theorem munge_readonly_name_elsewhere:
  assumes "name b \<in> {''duration'', ''buffered'', ''seekable'', ''played''}"
    and "\<not> isMediaNode (parent b)"
  shows "\<exists>r c' blk'. munge u c blk b = Inr (r, c', blk')
     \<and> updateDom r = None
     \<and> res_isReadOnlyMediaAttribute r
     \<and> (\<not> dimensions_test u (name b) \<longrightarrow>
          \<not> munge_isReadOnly u b \<and> needsLock r = munge_needsLock (parent b))"
proof -
  from assms(1) have ng: "name b \<noteq> ''group''" and np: "name b \<noteq> ''paused''" by auto
  obtain r c' blk' where m: "munge u c blk b = Inr (r, c', blk')"
    using munge_returns [of b u c blk] ng by auto
  have g: "getDomUpdater (parent b) b (snippet (value_expr b)) = None"
    using assms(1)
    by (simp add: getDomUpdater_def isReadOnlyMediaAttribute_def readOnlyMediaAttributes_def)
  have u: "updateDom r = None"
    using g np by (simp add: munge_updates(2) [OF m])
  have a: "res_isReadOnlyMediaAttribute r"
    using assms(1)
    by (simp add: munge_fields(2) [OF m] isReadOnlyMediaAttribute_def
          readOnlyMediaAttributes_def)
  have l: "\<not> dimensions_test u (name b) \<longrightarrow>
          \<not> munge_isReadOnly u b \<and> needsLock r = munge_needsLock (parent b)"
    using assms(2) by (simp add: munge_fields(1) [OF m] munge_isReadOnly_def)
  from m u a l show ?thesis by blast
qed

theorem munge_readonly_name_elsewhere_witness:
  "name (media_binding ''duration'' div_element)
     \<in> {''duration'', ''buffered'', ''seekable'', ''played''}
   \<and> \<not> isMediaNode (parent (media_binding ''duration'' div_element))
   \<and> \<not> dimensions_test sample_utils (name (media_binding ''duration'' div_element))
   \<and> \<not> munge_isReadOnly sample_utils (media_binding ''duration'' div_element)
   \<and> map_option updateDom (munge_result sample_utils sample_compiler sample_block
        (media_binding ''duration'' div_element)) = Some None
   \<and> map_option res_isReadOnlyMediaAttribute (munge_result sample_utils sample_compiler
        sample_block (media_binding ''duration'' div_element)) = Some True
   \<and> map_option needsLock (munge_result sample_utils sample_compiler
        sample_block (media_binding ''duration'' div_element)) = Some True"
  using munge_readonly_name_elsewhere [of "media_binding ''duration'' div_element"
          sample_utils sample_compiler sample_block]
  by (simp add: munge_eval sample_defs)

section \<open>The binding group registry\<close>

lemma set_set_add: "set (set_add s x) = insert x (set s)"
  by (auto simp: set_add_def)

lemma distinct_set_add: "distinct s \<Longrightarrow> distinct (set_add s x)"
  by (simp add: set_add_def)

lemma set_foldl_set_add: "set (foldl set_add s xs) = set s \<union> set xs"
  by (induction xs arbitrary: s) (auto simp: set_set_add)

lemma distinct_foldl_set_add: "distinct s \<Longrightarrow> distinct (foldl set_add s xs)"
  by (induction xs arbitrary: s) (simp_all add: distinct_set_add)

lemma prefix_foldl_set_add: "prefix s (foldl set_add s xs)"
proof (induction xs arbitrary: s)
  case Nil
  show ?case by simp
next
  case (Cons x xs)
  have "prefix s (set_add s x)" by (simp add: set_add_def)
  also have "prefix (set_add s x) (foldl set_add (set_add s x) xs)" by (rule Cons.IH)
  finally show ?case by simp
qed

lemma filter_removeAll_absorb: "\<not> P x \<Longrightarrow> filter P (removeAll x xs) = filter P xs"
  by (induction xs) auto

lemma filter_removeAll_split:
  "filter (\<lambda>y. P y \<and> y \<noteq> x) xs = filter P (removeAll x xs)"
  by (induction xs) auto

lemma foldl_set_add_first_seen:
  "foldl set_add g ks = g @ filter (\<lambda>k. k \<notin> set g) (first_seen ks)"
proof (induction ks arbitrary: g)
  case Nil
  show ?case by simp
next
  case (Cons k ks)
  show ?case
  proof (cases "k \<in> set g")
    case True
    then have "foldl set_add g (k # ks) = foldl set_add g ks" by (simp add: set_add_def)
    also have "\<dots> = g @ filter (\<lambda>k. k \<notin> set g) (first_seen ks)" by (rule Cons.IH)
    also have "filter (\<lambda>k. k \<notin> set g) (first_seen ks)
        = filter (\<lambda>k. k \<notin> set g) (first_seen (k # ks))"
      using True by (simp add: filter_removeAll_absorb)
    finally show ?thesis .
  next
    case False
    then have "foldl set_add g (k # ks) = foldl set_add (g @ [k]) ks" by (simp add: set_add_def)
    also have "\<dots> = (g @ [k]) @ filter (\<lambda>y. y \<notin> set (g @ [k])) (first_seen ks)"
      by (rule Cons.IH)
    also have "filter (\<lambda>y. y \<notin> set (g @ [k])) (first_seen ks)
        = filter (\<lambda>y. y \<notin> set g) (removeAll k (first_seen ks))"
      using filter_removeAll_split [of "\<lambda>y. y \<notin> set g" k "first_seen ks"]
      by (simp add: conj_commute)
    finally show ?thesis using False by simp
  qed
qed

lemma set_first_seen: "set (first_seen ks) = set ks"
  by (induction ks) auto

lemma distinct_first_seen: "distinct (first_seen ks)"
  by (induction ks) (auto simp: distinct_removeAll)

lemma indexOf_notin: "k \<notin> set xs \<Longrightarrow> indexOf xs k = - 1"
  by (induction xs) auto

lemma indexOf_in:
  "k \<in> set xs \<Longrightarrow> 0 \<le> indexOf xs k \<and> nat (indexOf xs k) < length xs \<and> xs ! nat (indexOf xs k) = k"
proof (induction xs)
  case Nil
  then show ?case by simp
next
  case (Cons x xs)
  show ?case
  proof (cases "x = k")
    case True
    then show ?thesis by simp
  next
    case False
    with Cons.prems have "k \<in> set xs" by simp
    from Cons.IH [OF this] False show ?thesis
      by (auto simp: Let_def nat_add_distrib)
  qed
qed

lemma indexOf_m1_iff: "(indexOf xs k = - 1) = (k \<notin> set xs)"
  using indexOf_notin [of k xs] indexOf_in [of k xs] by auto

lemma indexOf_append_in: "k \<in> set xs \<Longrightarrow> indexOf (xs @ ys) k = indexOf xs k"
proof (induction xs)
  case Nil
  then show ?case by simp
next
  case (Cons x xs)
  then show ?case by (cases "x = k") (auto simp: Let_def indexOf_m1_iff)
qed

lemma indexOf_append_new: "k \<notin> set xs \<Longrightarrow> indexOf (xs @ [k]) k = int (length xs)"
  by (induction xs) (auto simp: Let_def)

lemma indexOf_prefix: "k \<in> set xs \<Longrightarrow> prefix xs zs \<Longrightarrow> indexOf zs k = indexOf xs k"
  by (auto simp: prefix_def indexOf_append_in)

lemma getBindingGroup_result:
  assumes "flattenReference u v = Some ps"
  shows "getBindingGroup u c v
         = Inr (indexOf (set_add (bindingGroups c) (join ''.'' ps)) (join ''.'' ps),
                c\<lparr>bindingGroups := set_add (bindingGroups c) (join ''.'' ps)\<rparr>)"
proof (cases "join ''.'' ps \<in> set (bindingGroups c)")
  case True
  then show ?thesis
    using assms by (simp add: getBindingGroup_def Let_def set_add_def indexOf_m1_iff)
next
  case False
  then show ?thesis
    using assms
    by (simp add: getBindingGroup_def Let_def set_add_def indexOf_m1_iff indexOf_append_new)
qed

lemma getBindingGroups_result:
  assumes "map (flattenReference u) vs = map Some pss"
  shows "getBindingGroups u c vs
         = Inr (map (indexOf (foldl set_add (bindingGroups c) (map (join ''.'') pss)))
                    (map (join ''.'') pss),
                c\<lparr>bindingGroups := foldl set_add (bindingGroups c) (map (join ''.'') pss)\<rparr>)"
  using assms
proof (induction vs arbitrary: c pss)
  case Nil
  then show ?case by simp
next
  case (Cons v vs)
  from Cons.prems obtain ps pss' where pss: "pss = ps # pss'"
    and v: "flattenReference u v = Some ps"
    and vs: "map (flattenReference u) vs = map Some pss'"
    by (cases pss) auto
  let ?k = "join ''.'' ps"
  let ?g1 = "set_add (bindingGroups c) ?k"
  let ?c1 = "c\<lparr>bindingGroups := ?g1\<rparr>"
  let ?G = "foldl set_add ?g1 (map (join ''.'') pss')"
  have step: "getBindingGroup u c v = Inr (indexOf ?g1 ?k, ?c1)"
    by (rule getBindingGroup_result [OF v])
  have rest: "getBindingGroups u ?c1 vs
         = Inr (map (indexOf ?G) (map (join ''.'') pss'), ?c1\<lparr>bindingGroups := ?G\<rparr>)"
    using Cons.IH [OF vs, of ?c1] by simp
  have "?k \<in> set ?g1" by (simp add: set_set_add)
  then have idx: "indexOf ?G ?k = indexOf ?g1 ?k"
    using prefix_foldl_set_add [of ?g1 "map (join ''.'') pss'"] by (rule indexOf_prefix)
  show ?case
    by (simp add: pss step rest idx)
qed

lemma first_seen_foldl: "foldl set_add [] ks = first_seen ks"
  using foldl_set_add_first_seen [of "[]" ks] by simp

text \<open>
  C2. Start from an empty registry and call \<open>getBindingGroup\<close> on any sequence of targets
  that can be flattened. Every call returns an index; the registry afterwards holds each
  keypath once, in the order of first use; the index returned for a keypath is its
  position there, so indices count up from 0 in that order; two calls return the same
  index exactly when their keypaths are equal strings; and after any number of the calls
  the indices so far are those of the whole run and the registry so far is an initial
  part of the final one: no index is given away again or moved.
\<close>

theorem getBindingGroup_registry:
  assumes "bindingGroups c = []" and "map (flattenReference u) vs = map Some pss"
  shows "\<exists>is c'. getBindingGroups u c vs = Inr (is, c')
      \<and> length is = length vs
      \<and> bindingGroups c' = first_seen (map (join ''.'') pss)
      \<and> distinct (bindingGroups c')
      \<and> (\<forall>i<length vs. \<forall>j<length vs.
            (is ! i = is ! j) = (join ''.'' (pss ! i) = join ''.'' (pss ! j)))
      \<and> (\<forall>j<length vs. 0 \<le> is ! j \<and> nat (is ! j) < length (bindingGroups c')
            \<and> bindingGroups c' ! nat (is ! j) = join ''.'' (pss ! j))
      \<and> (\<forall>n\<le>length vs. \<exists>is1 c1. getBindingGroups u c (take n vs) = Inr (is1, c1)
            \<and> is1 = take n is \<and> prefix (bindingGroups c1) (bindingGroups c'))"
proof -
  let ?ks = "map (join ''.'') pss"
  let ?G = "first_seen ?ks"
  let ?is = "map (indexOf ?G) ?ks"
  let ?c' = "c\<lparr>bindingGroups := ?G\<rparr>"
  have len: "length pss = length vs"
    using assms(2) by (metis length_map)
  have run: "getBindingGroups u c vs = Inr (?is, ?c')"
    using getBindingGroups_result [OF assms(2), of c] by (simp add: assms(1) first_seen_foldl)
  have pos: "0 \<le> ?is ! j \<and> nat (?is ! j) < length ?G \<and> ?G ! nat (?is ! j) = join ''.'' (pss ! j)"
    if "j < length vs" for j
  proof -
    from that len have j: "j < length pss" by simp
    then have "?ks ! j \<in> set ?G" by (simp add: set_first_seen)
    from indexOf_in [OF this] j show ?thesis by simp
  qed
  have inj: "(?is ! i = ?is ! j) = (join ''.'' (pss ! i) = join ''.'' (pss ! j))"
    if "i < length vs" and "j < length vs" for i j
  proof
    assume "?is ! i = ?is ! j"
    with pos [OF that(1)] pos [OF that(2)]
    show "join ''.'' (pss ! i) = join ''.'' (pss ! j)" by metis
  next
    assume "join ''.'' (pss ! i) = join ''.'' (pss ! j)"
    with that len show "?is ! i = ?is ! j" by simp
  qed
  have pre: "\<exists>is1 c1. getBindingGroups u c (take n vs) = Inr (is1, c1)
            \<and> is1 = take n ?is \<and> prefix (bindingGroups c1) ?G"
    if "n \<le> length vs" for n
  proof -
    let ?kn = "map (join ''.'') (take n pss)"
    let ?Gn = "first_seen ?kn"
    have "map (flattenReference u) (take n vs) = map Some (take n pss)"
      using assms(2) by (metis take_map)
    from getBindingGroups_result [OF this, of c]
    have r: "getBindingGroups u c (take n vs)
             = Inr (map (indexOf ?Gn) ?kn, c\<lparr>bindingGroups := ?Gn\<rparr>)"
      by (simp add: assms(1) first_seen_foldl)
    have "foldl set_add [] ?ks = foldl set_add (foldl set_add [] ?kn) (map (join ''.'') (drop n pss))"
      by (metis append_take_drop_id foldl_append map_append)
    then have G: "?G = foldl set_add ?Gn (map (join ''.'') (drop n pss))"
      by (simp only: first_seen_foldl)
    have p: "prefix ?Gn ?G"
      using prefix_foldl_set_add [of ?Gn "map (join ''.'') (drop n pss)"] G by simp
    have "indexOf ?Gn k = indexOf ?G k" if "k \<in> set ?kn" for k
    proof -
      from that have "k \<in> set ?Gn" by (simp only: set_first_seen)
      from indexOf_prefix [OF this p] show ?thesis by simp
    qed
    then have "map (indexOf ?Gn) ?kn = map (indexOf ?G) ?kn" by simp
    also have "\<dots> = take n ?is" by (simp add: take_map)
    finally have i: "map (indexOf ?Gn) ?kn = take n ?is" .
    from r i p show ?thesis by simp
  qed
  show ?thesis
  proof (intro exI conjI)
    show "getBindingGroups u c vs = Inr (?is, ?c')" by (rule run)
    show "length ?is = length vs" using len by simp
    show "bindingGroups ?c' = ?G" by simp
    show "distinct (bindingGroups ?c')" by (simp add: distinct_first_seen)
    show "\<forall>i<length vs. \<forall>j<length vs.
            (?is ! i = ?is ! j) = (join ''.'' (pss ! i) = join ''.'' (pss ! j))"
      using inj by blast
    show "\<forall>j<length vs. 0 \<le> ?is ! j \<and> nat (?is ! j) < length (bindingGroups ?c')
            \<and> bindingGroups ?c' ! nat (?is ! j) = join ''.'' (pss ! j)"
      using pos by simp
    show "\<forall>n\<le>length vs. \<exists>is1 c1. getBindingGroups u c (take n vs) = Inr (is1, c1)
            \<and> is1 = take n ?is \<and> prefix (bindingGroups c1) (bindingGroups ?c')"
      using pre by simp
  qed
qed

theorem getBindingGroup_registry_witness:
  "bindingGroups sample_compiler = []
   \<and> map (flattenReference sample_utils) [selected_items, Identifier ''x'', selected_items]
       = map Some [[''selected'', ''items''], [''x''], [''selected'', ''items'']]
   \<and> getBindingGroups sample_utils sample_compiler
        [selected_items, Identifier ''x'', selected_items]
       = Inr ([0, 1, 0], sample_compiler\<lparr>bindingGroups := [''selected.items'', ''x'']\<rparr>)"
  using getBindingGroup_registry [of sample_compiler sample_utils
          "[selected_items, Identifier ''x'', selected_items]"
          "[[''selected'', ''items''], [''x''], [''selected'', ''items'']]"]
  by (simp add: sample_defs getBindingGroup_def Let_def)

section \<open>The dependencies of munge\<close>

lemma set_expand:
  "set (foldl (\<lambda>deps prp. (case m prp of None \<Rightarrow> deps | Some ids \<Rightarrow> foldl set_add deps ids)) s ps)
   = set s \<union> (\<Union>p \<in> set ps. (case m p of None \<Rightarrow> {} | Some ids \<Rightarrow> set ids))"
  by (induction ps arbitrary: s) (auto simp: set_foldl_set_add split: option.splits)

lemma distinct_expand:
  "distinct s \<Longrightarrow>
   distinct (foldl (\<lambda>deps prp. (case m prp of None \<Rightarrow> deps | Some ids \<Rightarrow> foldl set_add deps ids)) s ps)"
  by (induction ps arbitrary: s) (auto simp: distinct_foldl_set_add split: option.splits)

lemma munge_handler:
  assumes "munge u c blk b = Inr (r, c', blk')"
  shows "\<exists>v c1. getValueFromDom u c (parent b) b = Inr (v, c1)
      \<and> res_handler r = getEventHandler u b c1 blk (getObject u (node (value_expr b)))
                           (snippet (value_expr b)) (munge_dependencies c b) v"
  using assms
  by (auto simp: munge_def Let_def split: sum.splits prod.splits if_splits)

text \<open>
  C8. The dependencies \<open>munge\<close> computes are, as a set, the dependencies of the target
  expression together with, for each of them, all the indirect dependencies registered
  under its name in \<open>compiler.indirectDependencies\<close>; no name is repeated; and the handler
  of the result is \<open>getEventHandler\<close> applied to exactly these dependencies.
\<close>

theorem munge_dependencies_expanded:
  "set (munge_dependencies c b)
     = set (dependencies (value_expr b))
       \<union> (\<Union>p \<in> set (dependencies (value_expr b)).
             (case indirectDependencies c p of None \<Rightarrow> {} | Some ids \<Rightarrow> set ids))
   \<and> distinct (munge_dependencies c b)
   \<and> (\<forall>r c' blk'. munge u c blk b = Inr (r, c', blk') \<longrightarrow>
        (\<exists>v c1. getValueFromDom u c (parent b) b = Inr (v, c1)
           \<and> res_handler r = getEventHandler u b c1 blk (getObject u (node (value_expr b)))
                                (snippet (value_expr b)) (munge_dependencies c b) v))"
proof (intro conjI allI impI)
  show "set (munge_dependencies c b)
     = set (dependencies (value_expr b))
       \<union> (\<Union>p \<in> set (dependencies (value_expr b)).
             (case indirectDependencies c p of None \<Rightarrow> {} | Some ids \<Rightarrow> set ids))"
    by (simp add: munge_dependencies_def set_expand new_Set_def set_foldl_set_add)
  show "distinct (munge_dependencies c b)"
    by (simp add: munge_dependencies_def new_Set_def distinct_expand distinct_foldl_set_add)
next
  fix r c' blk'
  assume "munge u c blk b = Inr (r, c', blk')"
  then show "\<exists>v c1. getValueFromDom u c (parent b) b = Inr (v, c1)
           \<and> res_handler r = getEventHandler u b c1 blk (getObject u (node (value_expr b)))
                                (snippet (value_expr b)) (munge_dependencies c b) v"
    by (rule munge_handler)
qed


theorem munge_dependencies_expanded_witness:
  "munge_dependencies sample_compiler checked_binding
     = [''selected'', ''total'', ''$user'', ''items'', ''chosen'']
   \<and> indirectDependencies sample_compiler ''selected'' = Some [''items'', ''chosen'']
   \<and> set (munge_dependencies sample_compiler checked_binding)
       = {''selected'', ''total'', ''$user'', ''items'', ''chosen''}
   \<and> map_option (\<lambda>r. props (res_handler r))
        (munge_result sample_utils sample_compiler sample_block checked_binding)
       = Some [''selected: ctx.selected'', ''items: ctx.items'', ''chosen: ctx.chosen'']"
  using munge_dependencies_expanded [of sample_compiler checked_binding sample_utils sample_block]
  by (simp add: munge_eval sample_defs insert_commute)

section \<open>Group bindings\<close>

lemma set_add_idem: "set_add (set_add g k) k = set_add g k"
  by (simp add: set_add_def)

lemma munge_group_state:
  assumes "name b = ''group''" and "flattenReference u (node (value_expr b)) = Some ps"
  shows "\<exists>r. munge u c blk b
      = Inr (r, c\<lparr>bindingGroups := set_add (bindingGroups c) (join ''.'' ps)\<rparr>,
             blk\<lparr>builders_hydrate := builders_hydrate blk
                    @ [group_push_line (indexOf (set_add (bindingGroups c) (join ''.'' ps))
                                          (join ''.'' ps)) (parent b)],
                 builders_destroy := builders_destroy blk
                    @ [group_splice_line (indexOf (set_add (bindingGroups c) (join ''.'' ps))
                                            (join ''.'' ps)) (parent b)]\<rparr>)"
proof -
  let ?k = "join ''.'' ps"
  let ?g1 = "set_add (bindingGroups c) ?k"
  let ?c2 = "c\<lparr>bindingGroups := ?g1\<rparr>"
  have "\<exists>v c1. getValueFromDom u c (parent b) b = Inr (v, c1) \<and> (c1 = c \<or> c1 = ?c2)"
    using assms(1)
    by (simp add: getValueFromDom_def Let_def getBindingGroup_result [OF assms(2)])
  then obtain v c1 where v: "getValueFromDom u c (parent b) b = Inr (v, c1)"
    and c1: "c1 = c \<or> c1 = ?c2"
    by blast
  from c1 have g: "set_add (bindingGroups c1) ?k = ?g1" and c2: "c1\<lparr>bindingGroups := ?g1\<rparr> = ?c2"
    by (auto simp: set_add_idem)
  have grp: "munge_group u c1 blk b
      = Inr (?c2, blk\<lparr>builders_hydrate := builders_hydrate blk
                         @ [group_push_line (indexOf ?g1 ?k) (parent b)],
                      builders_destroy := builders_destroy blk
                         @ [group_splice_line (indexOf ?g1 ?k) (parent b)]\<rparr>)"
    using assms(1)
    by (simp add: munge_group_def getBindingGroup_result [OF assms(2)] g c2
          hydrate_addLine_def destroy_addLine_def)
  show ?thesis
    using assms(1) by (simp add: munge_def Let_def v grp split: prod.splits)
qed

text \<open>
  C9. Two \<open>group\<close> bindings whose targets flatten to the same keypath, synthesized one
  after the other: both get the same index \<open>i\<close>, the registry's index of that keypath;
  each \<open>munge\<close> appends exactly one line for its own node to the block's hydrate list and
  one to its destroy list, and leaves the rest of the block as it was; the second call
  leaves the compiler as the first one left it.
\<close>

theorem munge_group_shared_index:
  assumes "name b1 = ''group''" and "name b2 = ''group''"
    and "flattenReference u (node (value_expr b1)) = Some ps1"
    and "flattenReference u (node (value_expr b2)) = Some ps2"
    and "join ''.'' ps1 = join ''.'' ps2"
  shows "\<exists>i r1 c1 r2.
      munge u c blk b1
        = Inr (r1, c1,
               blk\<lparr>builders_hydrate := builders_hydrate blk @ [group_push_line i (parent b1)],
                   builders_destroy := builders_destroy blk @ [group_splice_line i (parent b1)]\<rparr>)
    \<and> munge u c1
        (blk\<lparr>builders_hydrate := builders_hydrate blk @ [group_push_line i (parent b1)],
             builders_destroy := builders_destroy blk @ [group_splice_line i (parent b1)]\<rparr>) b2
        = Inr (r2, c1,
               blk\<lparr>builders_hydrate := builders_hydrate blk
                      @ [group_push_line i (parent b1), group_push_line i (parent b2)],
                   builders_destroy := builders_destroy blk
                      @ [group_splice_line i (parent b1), group_splice_line i (parent b2)]\<rparr>)
    \<and> 0 \<le> i \<and> nat i < length (bindingGroups c1)
    \<and> bindingGroups c1 ! nat i = join ''.'' ps1
    \<and> getBindingGroup u c1 (node (value_expr b1)) = Inr (i, c1)
    \<and> getBindingGroup u c1 (node (value_expr b2)) = Inr (i, c1)"
proof -
  let ?k = "join ''.'' ps1"
  let ?g1 = "set_add (bindingGroups c) ?k"
  let ?c1 = "c\<lparr>bindingGroups := ?g1\<rparr>"
  let ?i = "indexOf ?g1 ?k"
  let ?blk1 = "blk\<lparr>builders_hydrate := builders_hydrate blk @ [group_push_line ?i (parent b1)],
                   builders_destroy := builders_destroy blk @ [group_splice_line ?i (parent b1)]\<rparr>"
  obtain r1 where m1: "munge u c blk b1 = Inr (r1, ?c1, ?blk1)"
    using munge_group_state [OF assms(1) assms(3), of c blk] by blast
  have idem: "set_add (bindingGroups ?c1) ?k = ?g1" by (simp add: set_add_idem)
  have same: "?c1\<lparr>bindingGroups := ?g1\<rparr> = ?c1" by simp
  obtain r2 where m2: "munge u ?c1 ?blk1 b2
        = Inr (r2, ?c1,
               blk\<lparr>builders_hydrate := builders_hydrate blk
                      @ [group_push_line ?i (parent b1), group_push_line ?i (parent b2)],
                   builders_destroy := builders_destroy blk
                      @ [group_splice_line ?i (parent b1), group_splice_line ?i (parent b2)]\<rparr>)"
    using munge_group_state [OF assms(2) assms(4), of ?c1 ?blk1]
    by (auto simp: assms(5) [symmetric] set_add_idem)
  have mem: "?k \<in> set ?g1" by (simp add: set_set_add)
  have pos: "0 \<le> ?i \<and> nat ?i < length ?g1 \<and> ?g1 ! nat ?i = ?k"
    by (rule indexOf_in [OF mem])
  have l1: "getBindingGroup u ?c1 (node (value_expr b1)) = Inr (?i, ?c1)"
    by (simp add: getBindingGroup_result [OF assms(3)] set_add_idem)
  have l2: "getBindingGroup u ?c1 (node (value_expr b2)) = Inr (?i, ?c1)"
    by (simp add: getBindingGroup_result [OF assms(4)] assms(5) [symmetric] set_add_idem)
  show ?thesis
  proof (intro exI conjI)
    show "munge u c blk b1 = Inr (r1, ?c1, ?blk1)" by (rule m1)
    show "munge u ?c1 ?blk1 b2
        = Inr (r2, ?c1,
               blk\<lparr>builders_hydrate := builders_hydrate blk
                      @ [group_push_line ?i (parent b1), group_push_line ?i (parent b2)],
                   builders_destroy := builders_destroy blk
                      @ [group_splice_line ?i (parent b1), group_splice_line ?i (parent b2)]\<rparr>)"
      by (rule m2)
    show "0 \<le> ?i" using pos by simp
    show "nat ?i < length (bindingGroups ?c1)" using pos by simp
    show "bindingGroups ?c1 ! nat ?i = ?k" using pos by simp
    show "getBindingGroup u ?c1 (node (value_expr b1)) = Inr (?i, ?c1)" by (rule l1)
    show "getBindingGroup u ?c1 (node (value_expr b2)) = Inr (?i, ?c1)" by (rule l2)
  qed
qed


theorem munge_group_shared_index_witness:
  "name (group_binding checkbox0) = ''group'' \<and> name (group_binding checkbox1) = ''group''
   \<and> flattenReference sample_utils (node (value_expr (group_binding checkbox0)))
       = Some [''selected'', ''items'']
   \<and> flattenReference sample_utils (node (value_expr (group_binding checkbox1)))
       = Some [''selected'', ''items'']
   \<and> getStaticAttributeValue (parent (group_binding checkbox0)) ''type'' = JStr ''checkbox''
   \<and> getStaticAttributeValue (parent (group_binding checkbox1)) ''type'' = JStr ''checkbox''
   \<and> munge_state sample_utils sample_compiler sample_block (group_binding checkbox0)
       = Some (sample_compiler\<lparr>bindingGroups := [''selected.items'']\<rparr>,
               sample_block\<lparr>builders_hydrate := [''#component._bindingGroups[0].push(input0);''],
                 builders_destroy := [''#component._bindingGroups[0].splice(#component._bindingGroups[0].indexOf(input0), 1);'']\<rparr>)
   \<and> munge_state sample_utils (sample_compiler\<lparr>bindingGroups := [''selected.items'']\<rparr>)
        (sample_block\<lparr>builders_hydrate := [''#component._bindingGroups[0].push(input0);''],
           builders_destroy := [''#component._bindingGroups[0].splice(#component._bindingGroups[0].indexOf(input0), 1);'']\<rparr>)
        (group_binding checkbox1)
       = Some (sample_compiler\<lparr>bindingGroups := [''selected.items'']\<rparr>,
               sample_block\<lparr>builders_hydrate := [''#component._bindingGroups[0].push(input0);'',
                   ''#component._bindingGroups[0].push(input1);''],
                 builders_destroy := [''#component._bindingGroups[0].splice(#component._bindingGroups[0].indexOf(input0), 1);'',
                   ''#component._bindingGroups[0].splice(#component._bindingGroups[0].indexOf(input1), 1);'']\<rparr>)"
  using munge_group_shared_index [of "group_binding checkbox0" "group_binding checkbox1"
          sample_utils "[''selected'', ''items'']" "[''selected'', ''items'']"
          sample_compiler sample_block]
  by (simp add: munge_state_def munge_eval sample_defs)

end
